theory Spec2Isabelle
  imports Main "HOL-Library.AList" "HOL-Library.Char_ord" "HOL-Library.List_Lexorder"
begin

section \<open>Python primitives used by resume.py\<close>

text \<open>Decimal rendering of integers, as an f-string renders an \<open>int\<close>.\<close>

definition digit_char :: "nat \<Rightarrow> char" where
  "digit_char d = char_of (48 + d)"

fun str_nat :: "nat \<Rightarrow> string" where
  "str_nat n = (if n < 10 then [digit_char n] else str_nat (n div 10) @ [digit_char (n mod 10)])"

declare str_nat.simps [simp del]

definition str_int :: "int \<Rightarrow> string" where
  "str_int i = (if i < 0 then CHR ''-'' # str_nat (nat (- i)) else str_nat (nat i))"

text \<open>An f-string renders an \<open>Optional[int]\<close> that is \<open>None\<close> as the word None.\<close>

definition str_opt_int :: "int option \<Rightarrow> string" where
  "str_opt_int j = (case j of None \<Rightarrow> ''None'' | Some i \<Rightarrow> str_int i)"

text \<open>\<open>sep.join(parts)\<close>.\<close>

fun join :: "string \<Rightarrow> string list \<Rightarrow> string" where
  "join sep [] = []"
| "join sep [x] = x"
| "join sep (x # y # ys) = x @ sep @ join sep (y # ys)"

text \<open>\<open>s.split("-")[0]\<close>: the text before the first dash (all of \<open>s\<close> if it has none).\<close>

definition split_dash_first :: "string \<Rightarrow> string" where
  "split_dash_first s = takeWhile (\<lambda>c. c \<noteq> CHR ''-'') s"

text \<open>\<open>enumerate(xs)\<close>.\<close>

definition enumerate_from0 :: "'a list \<Rightarrow> (nat \<times> 'a) list" where
  "enumerate_from0 xs = List.enumerate 0 xs"

text \<open>
  A Python \<open>dict\<close> is an association list in insertion order with distinct keys:
  \<open>d[k] = v\<close> is \<^const>\<open>AList.update\<close> (an existing key keeps its place and takes the new
  value, a new key goes to the end), \<open>d.update(e)\<close> stores the items of \<open>e\<close> one by one,
  and \<open>dict(items)\<close> or a dict comprehension stores the items into the empty dict.
\<close>

type_synonym ('k, 'v) dict = "('k \<times> 'v) list"

definition dict_update_all :: "('k, 'v) dict \<Rightarrow> ('k \<times> 'v) list \<Rightarrow> ('k, 'v) dict" where
  "dict_update_all d items = fold (\<lambda>kv acc. AList.update (fst kv) (snd kv) acc) items d"

definition dict_of :: "('k \<times> 'v) list \<Rightarrow> ('k, 'v) dict" where
  "dict_of items = dict_update_all [] items"

section \<open>Helpers of util.py\<close>

text \<open>
  Modelled from the spec: \<open>util.chunked\<close>, \<open>util.separate\<close> and \<open>util.groupby_unsorted\<close>
  are imported by resume.py from util.py. \<open>chunked\<close> slices a list into consecutive
  pieces of at most \<open>n\<close> elements ("sliced into size-bounded chunks", "sliced into groups
  of \<open>\<le>\<close>150"); \<open>separate\<close> filters a collection into the elements failing and the
  elements passing a predicate, in that order; \<open>groupby_unsorted\<close> splits a sequence by a
  key ("split by type prefix"), keys in order of first occurrence, each group in the
  order of the sequence.
\<close>

function chunked :: "'a list \<Rightarrow> nat \<Rightarrow> 'a list list" where
  "chunked xs n = (if n = 0 \<or> xs = [] then [] else take n xs # chunked (drop n xs) n)"
  by pat_completeness auto
termination
  by (relation "measure (\<lambda>(xs, n). length xs)") auto

declare chunked.simps [simp del]

definition separate :: "('a \<Rightarrow> bool) \<Rightarrow> 'a list \<Rightarrow> 'a list \<times> 'a list" where
  "separate pred coll = (filter (\<lambda>x. \<not> pred x) coll, filter pred coll)"

definition groupby_unsorted :: "'a list \<Rightarrow> ('a \<Rightarrow> 'k) \<Rightarrow> ('k \<times> 'a list) list" where
  "groupby_unsorted seq key =
     map (\<lambda>k. (k, filter (\<lambda>x. key x = k) seq)) (rev (remdups (rev (map key seq))))"

section \<open>Configuration and data model\<close>

definition PLACEMENT_MAX_CNT :: nat where
  "PLACEMENT_MAX_CNT = 150"

definition BULK_INSERT_LIMIT :: nat where
  "BULK_INSERT_LIMIT = 5000"

record ResumeJobData =
  job_id :: int
  partition :: string
  nodes_alloc :: "string list"

record ResumeData =
  jobs :: "ResumeJobData list"

text \<open>
  The nodeset object and the \<open>Lookup\<close> object of util.py, as far as resume.py reads them.
  They are collaborators outside resume.py, so every theorem takes them as parameters.
\<close>

record nodeset =
  nodeset_name :: string
  enable_placement :: bool
  tpu_vmcount :: nat

record lookup =
  slurm_cluster_name :: string
  scontrol :: string
  node_prefix :: "string \<Rightarrow> string"
  node_nodeset :: "string \<Rightarrow> nodeset"
  node_template :: "string \<Rightarrow> string"
  node_machine_type :: "string \<Rightarrow> string"
  node_is_tpu :: "string \<Rightarrow> bool"
  partition_is_tpu :: "string \<Rightarrow> bool"

text \<open>\<open>Lookup.nodeset_map\<close>: the host names by nodeset name.\<close>

definition nodeset_map :: "lookup \<Rightarrow> string list \<Rightarrow> (string, string list) dict" where
  "nodeset_map lk hostnames = groupby_unsorted hostnames (\<lambda>n. nodeset_name (node_nodeset lk n))"

datatype error = TypeError | AssertionError | StopIteration

section \<open>Placement groups\<close>

definition invalid_types :: "string list" where
  "invalid_types = [''e2'', ''t2d'', ''n1'', ''t2a'', ''m1'', ''m2'', ''m3'']"

fun valid_placement_nodes :: "lookup \<Rightarrow> string list \<Rightarrow> bool" where
  "valid_placement_nodes lk [] = True"
| "valid_placement_nodes lk (node # nodelist) =
     (if split_dash_first (node_machine_type lk node) \<in> set invalid_types then False
      else valid_placement_nodes lk nodelist)"

text \<open>
  What executing a creation request gives: the started operation, or the exception
  that \<open>map_with_futures\<close> hands back as a value, with its \<open>error_details\<close> (a list of
  dicts).
\<close>

datatype api_result = Operation | HttpError "(string, string) dict list"

type_synonym provider = "string \<Rightarrow> api_result"

fun classify_result :: "string \<times> api_result \<Rightarrow> string" where
  "classify_result (grp, Operation) = ''submitted''"
| "classify_result (grp, HttpError error_details) =
     (if list_all (\<lambda>e. map_of e ''reason'' = Some ''alreadyExists'') error_details
      then ''redundant'' else ''failed'')"

definition placement_group_name :: "lookup \<Rightarrow> nodeset \<Rightarrow> int \<Rightarrow> nat \<Rightarrow> string" where
  "placement_group_name lk ns job i =
     slurm_cluster_name lk @ ''-slurmgcp-managed-'' @ nodeset_name ns @ ''-'' @ str_int job
       @ ''-'' @ str_nat i"

text \<open>
  The outcome of \<open>create_nodeset_placement_groups\<close>: the names of the creation requests
  it sent, how their results were classified, and what it returns. With a non-empty
  \<open>failed\<close> dict the list comprehension \<open>[f"{e}" for _, e in failed.values()]\<close>
  unpacks an exception object, which raises \<open>TypeError\<close>.
\<close>

record pg_outcome =
  pg_requests :: "string list"
  pg_submitted :: "string list"
  pg_redundant :: "string list"
  pg_failed :: "string list"
  pg_returned :: "error + (string option, string list) dict"

definition no_requests :: "(string option, string list) dict \<Rightarrow> pg_outcome" where
  "no_requests d = \<lparr>pg_requests = [], pg_submitted = [], pg_redundant = [], pg_failed = [],
     pg_returned = Inr d\<rparr>"

definition create_nodeset_placement_groups ::
  "lookup \<Rightarrow> provider \<Rightarrow> string list \<Rightarrow> int \<Rightarrow> pg_outcome" where
  "create_nodeset_placement_groups lk prov node_list job =
     (let no_pg = [(None, node_list)] in
      if length node_list < 2 then no_requests no_pg
      else
        let model = hd node_list;
            ns = node_nodeset lk model
        in if \<not> (enable_placement ns \<and> valid_placement_nodes lk node_list) then no_requests no_pg
        else
          let groups = dict_of (map (\<lambda>(i, nodes). (placement_group_name lk ns job i, nodes))
                                   (enumerate_from0 (chunked node_list PLACEMENT_MAX_CNT)));
              reqs = map fst groups;
              ops = dict_of (map (\<lambda>grp. (grp, prov grp)) reqs);
              grouped_ops = dict_of (groupby_unsorted ops classify_result);
              get = (\<lambda>key. case map_of grouped_ops key of None \<Rightarrow> [] | Some items \<Rightarrow> dict_of items);
              submitted = get ''submitted'';
              redundant = get ''redundant'';
              failed = get ''failed''
          in \<lparr>pg_requests = reqs, pg_submitted = map fst submitted,
               pg_redundant = map fst redundant, pg_failed = map fst failed,
               pg_returned = (if failed \<noteq> [] then Inl TypeError
                              else Inr (map (\<lambda>(grp, nodes). (Some grp, nodes)) groups))\<rparr>)"

fun create_placement_groups_loop ::
  "lookup \<Rightarrow> provider \<Rightarrow> int \<Rightarrow> (string \<times> string list) list \<Rightarrow>
   (string option, string list) dict \<Rightarrow> error + (string option, string list) dict" where
  "create_placement_groups_loop lk prov job [] pgs = Inr pgs"
| "create_placement_groups_loop lk prov job ((name, nodes) # rest) pgs =
     (case pg_returned (create_nodeset_placement_groups lk prov nodes job) of
        Inl e \<Rightarrow> Inl e
      | Inr d \<Rightarrow> create_placement_groups_loop lk prov job rest (dict_update_all pgs d))"

definition create_placement_groups ::
  "lookup \<Rightarrow> provider \<Rightarrow> string list \<Rightarrow> int \<Rightarrow> error + (string option, string list) dict" where
  "create_placement_groups lk prov node_list job =
     create_placement_groups_loop lk prov job (nodeset_map lk node_list) []"

section \<open>Grouping nodes into bulk chunks\<close>

record BulkChunk =
  nodes :: "string list"
  prefix :: string
  chunk_idx :: nat
  chunk_job_id :: "int option"
  chunk_partition :: "string option"
  placement_group :: "string option"

record JobGroup =
  group_job_id :: "int option"
  group_partition :: "string option"
  placement_groups :: "(string option, string list) dict"

text \<open>The keys of \<open>job_groups\<close>: a job id, or one of the two strings for jobless nodes.\<close>

datatype job_key = JobId int | Normal_None | TPU_None

text \<open>
  The body of the loop over \<open>resume_data.jobs\<close>. \<open>node_set\<close> is the input collapsed to a
  set; \<open>sorted(s)\<close> of a set is \<^const>\<open>sorted_list_of_set\<close>. \<open>lkp\<close> is the parameter of
  \<open>group_nodes_bulk\<close>, \<open>lk\<close> the global \<open>lookup()\<close> that the placement routines read.
\<close>

definition job_placement_groups ::
  "lookup \<Rightarrow> lookup \<Rightarrow> provider \<Rightarrow> string set \<Rightarrow> ResumeJobData \<Rightarrow>
   error + (string option, string list) dict" where
  "job_placement_groups lkp lk prov node_set job =
     (let nodes_resume = node_set \<inter> set (nodes_alloc job) in
      if partition_is_tpu lkp (partition job) then Inr [(None, sorted_list_of_set nodes_resume)]
      else case create_placement_groups lk prov (nodes_alloc job) (job_id job) of
             Inl e \<Rightarrow> Inl e
           | Inr pgs \<Rightarrow>
               Inr (map (\<lambda>(pg, pg_nodes). (pg, sorted_list_of_set (set pg_nodes \<inter> nodes_resume)))
                        pgs))"

fun expand_jobs ::
  "lookup \<Rightarrow> lookup \<Rightarrow> provider \<Rightarrow> string set \<Rightarrow> ResumeJobData list \<Rightarrow>
   (job_key, JobGroup) dict \<Rightarrow> error + (job_key, JobGroup) dict" where
  "expand_jobs lkp lk prov node_set [] job_groups = Inr job_groups"
| "expand_jobs lkp lk prov node_set (job # rest) job_groups =
     (case job_placement_groups lkp lk prov node_set job of
        Inl e \<Rightarrow> Inl e
      | Inr pgs \<Rightarrow>
          expand_jobs lkp lk prov node_set rest
            (AList.update (JobId (job_id job))
               \<lparr>group_job_id = Some (job_id job), group_partition = Some (partition job),
                placement_groups = pgs\<rparr> job_groups))"

definition chunk_nodes :: "lookup \<Rightarrow> string list \<Rightarrow> string list list" where
  "chunk_nodes lkp ns =
     (let chunk_size = (if ns \<noteq> [] \<and> node_is_tpu lkp (hd ns)
                        then tpu_vmcount (node_nodeset lkp (hd ns)) else BULK_INSERT_LIMIT)
      in chunked ns chunk_size)"

text \<open>The four nested \<open>for\<close> clauses of the comprehension that builds \<open>grouped_nodes\<close>.\<close>

definition prefix_chunks ::
  "lookup \<Rightarrow> JobGroup \<Rightarrow> string option \<Rightarrow> string \<times> string list \<Rightarrow> BulkChunk list" where
  "prefix_chunks lkp job pg pn =
     map (\<lambda>(i, nodes_chunk).
            \<lparr>nodes = nodes_chunk, prefix = fst pn, chunk_idx = i,
             chunk_job_id = group_job_id job, chunk_partition = group_partition job,
             placement_group = pg\<rparr>)
         (enumerate_from0 (chunk_nodes lkp (snd pn)))"

definition pg_chunks ::
  "lookup \<Rightarrow> JobGroup \<Rightarrow> string option \<times> string list \<Rightarrow> BulkChunk list" where
  "pg_chunks lkp job pgn =
     concat (map (prefix_chunks lkp job (fst pgn)) (groupby_unsorted (snd pgn) (node_prefix lkp)))"

definition job_group_chunks :: "lookup \<Rightarrow> JobGroup \<Rightarrow> BulkChunk list" where
  "job_group_chunks lkp job = concat (map (pg_chunks lkp job) (placement_groups job))"

definition group_name :: "BulkChunk \<Rightarrow> string" where
  "group_name chunk =
     (case placement_group chunk of
        Some pg \<Rightarrow>
          prefix chunk @ '':job'' @ str_opt_int (chunk_job_id chunk) @ '':'' @ pg @ '':''
            @ str_nat (chunk_idx chunk)
      | None \<Rightarrow>
          (case chunk_job_id chunk of
             Some j \<Rightarrow> prefix chunk @ '':job'' @ str_int j @ '':'' @ str_nat (chunk_idx chunk)
           | None \<Rightarrow> prefix chunk @ '':'' @ str_nat (chunk_idx chunk)))"

text \<open>
  Python iterates a set of strings in an order that is not specified and changes from
  run to run. \<open>set_iter\<close> is that order: some enumeration of every finite set.
\<close>

type_synonym set_iter = "string set \<Rightarrow> string list"

definition enumerates :: "set_iter \<Rightarrow> bool" where
  "enumerates it = (\<forall>S. finite S \<longrightarrow> set (it S) = S \<and> distinct (it S))"

text \<open>
  The dict \<open>job_groups\<close> as it is when the comprehension starts: one group for each job
  id of the resume data, then the two groups of jobless nodes. An exception of a
  placement routine leaves \<open>group_nodes_bulk\<close> as it is raised.
\<close>

definition job_groups_of ::
  "set_iter \<Rightarrow> lookup \<Rightarrow> lookup \<Rightarrow> provider \<Rightarrow> string list \<Rightarrow> ResumeData option \<Rightarrow>
   error + (job_key, JobGroup) dict" where
  "job_groups_of it lkp lk prov nodes_in resume_data_opt =
     (let resume_data = (case resume_data_opt of None \<Rightarrow> \<lparr>jobs = []\<rparr> | Some rd \<Rightarrow> rd);
          node_set = set nodes_in
      in case expand_jobs lkp lk prov node_set (jobs resume_data) [] of
           Inl e \<Rightarrow> Inl e
         | Inr job_groups \<Rightarrow>
             let all_jobless_nodes = node_set - set (concat (map nodes_alloc (jobs resume_data)));
                 jobless = separate (node_is_tpu lkp) (it all_jobless_nodes);
                 jobless_nodes = fst jobless;
                 jobless_nodes_tpu = snd jobless
             in case create_placement_groups lk prov (sort jobless_nodes) 0 of
                  Inl e \<Rightarrow> Inl e
                | Inr normal_pgs \<Rightarrow>
                    let job_groups1 = AList.update Normal_None
                          \<lparr>group_job_id = None, group_partition = None,
                           placement_groups = normal_pgs\<rparr> job_groups
                    in Inr (AList.update TPU_None
                          \<lparr>group_job_id = None, group_partition = None,
                           placement_groups = [(None, sort jobless_nodes_tpu)]\<rparr> job_groups1))"

text \<open>\<open>grouped_nodes\<close>, the list of chunks before they are keyed by name.\<close>

definition grouped_nodes ::
  "set_iter \<Rightarrow> lookup \<Rightarrow> lookup \<Rightarrow> provider \<Rightarrow> string list \<Rightarrow> ResumeData option \<Rightarrow>
   error + BulkChunk list" where
  "grouped_nodes it lkp lk prov nodes_in resume_data_opt =
     (case job_groups_of it lkp lk prov nodes_in resume_data_opt of
        Inl e \<Rightarrow> Inl e
      | Inr job_groups \<Rightarrow> Inr (concat (map (job_group_chunks lkp) (map snd job_groups))))"

definition group_nodes_bulk ::
  "set_iter \<Rightarrow> lookup \<Rightarrow> lookup \<Rightarrow> provider \<Rightarrow> string list \<Rightarrow> ResumeData option \<Rightarrow>
   error + (string, BulkChunk) dict" where
  "group_nodes_bulk it lkp lk prov nodes_in resume_data_opt =
     (case grouped_nodes it lkp lk prov nodes_in resume_data_opt of
        Inl e \<Rightarrow> Inl e
      | Inr chunks \<Rightarrow> Inr (dict_of (map (\<lambda>chunk. (group_name chunk, chunk)) chunks)))"

section \<open>Building a bulk-insert request\<close>

text \<open>
  The fields of the request body that \<open>create_instances_request\<close> sets from its own
  arguments. The instance properties, the location policy and the plugin hook read
  collaborators outside resume.py and leave \<open>count\<close> and \<open>minCount\<close> as they are.
  \<open>if placement_group:\<close> is Python truthiness: false for \<open>None\<close> and for the empty string.
\<close>

record request_body =
  count :: nat
  minCount :: "nat option"
  sourceInstanceTemplate :: string
  perInstanceProperties :: "string list"

definition truthy :: "string option \<Rightarrow> bool" where
  "truthy s = (s \<noteq> None \<and> s \<noteq> Some [])"

definition create_instances_request ::
  "lookup \<Rightarrow> string list \<Rightarrow> string option \<Rightarrow> error + request_body" where
  "create_instances_request lk ns pg =
     (if \<not> (0 < length ns \<and> length ns \<le> BULK_INSERT_LIMIT) then Inl AssertionError
      else
        let model = hd ns;
            template = node_template lk model
        in if truthy pg then
             (if \<not> length ns \<le> PLACEMENT_MAX_CNT then Inl AssertionError
              else Inr \<lparr>count = length ns, minCount = None,
                        sourceInstanceTemplate = template, perInstanceProperties = map fst (dict_of (map (\<lambda>k. (k, ())) ns))\<rparr>)
           else Inr \<lparr>count = length ns, minCount = Some 1,
                     sourceInstanceTemplate = template, perInstanceProperties = map fst (dict_of (map (\<lambda>k. (k, ())) ns))\<rparr>)"

section \<open>Marking nodes down\<close>

text \<open>\<open>shlex.quote\<close> of the standard library.\<close>

definition shlex_safe :: "char \<Rightarrow> bool" where
  "shlex_safe c =
     (let n = (of_char c :: nat)
      in (48 \<le> n \<and> n \<le> 57) \<or> (65 \<le> n \<and> n \<le> 90) \<or> (97 \<le> n \<and> n \<le> 122)
         \<or> c \<in> set ''_@%+=:,./-'')"

definition squote :: string where
  "squote = [CHR 0x27]"

definition shlex_quote :: "string \<Rightarrow> string" where
  "shlex_quote s =
     (if s = [] then squote @ squote
      else if list_all shlex_safe s then s
      else squote @ concat (map (\<lambda>c. if c = CHR 0x27 then [CHR 0x27, CHR 0x22, CHR 0x27, CHR 0x22, CHR 0x27]
                                        else [c]) s) @ squote)"

text \<open>
  The host-list and link helpers of util.py are collaborators; the theorems hold for
  any functions in their place.
\<close>

record util =
  to_hostlist :: "string list \<Rightarrow> string"
  to_hostlist_fast :: "string list \<Rightarrow> string"
  trim_self_link :: "string \<Rightarrow> string"

text \<open>What the routines do to the outside: commands run, log lines, an exception raised.\<close>

datatype event = Run string | LogError string | LogWarning string | LogInfo string | Raised error

definition commands_run :: "event list \<Rightarrow> string list" where
  "commands_run evs = concat (map (\<lambda>e. case e of Run c \<Rightarrow> [c] | _ \<Rightarrow> []) evs)"

definition mark_down_command :: "lookup \<Rightarrow> string \<Rightarrow> string \<Rightarrow> string" where
  "mark_down_command lk nodelist reason_quoted =
     scontrol lk @ '' update nodename='' @ nodelist @ '' state=down reason='' @ reason_quoted"

definition admincomment_command :: "lookup \<Rightarrow> int \<Rightarrow> string \<Rightarrow> string" where
  "admincomment_command lk job reason_quoted =
     scontrol lk @ '' update jobid='' @ str_int job @ '' admincomment='' @ squote @ reason_quoted
       @ squote"

definition notify_command :: "lookup \<Rightarrow> int \<Rightarrow> string \<Rightarrow> string" where
  "notify_command lk job reason_quoted =
     scontrol lk @ '' notify '' @ str_int job @ '' '' @ squote @ reason_quoted @ squote"

fun notify_jobs :: "lookup \<Rightarrow> string set \<Rightarrow> string \<Rightarrow> ResumeJobData list \<Rightarrow> event list" where
  "notify_jobs lk node_set reason_quoted [] = []"
| "notify_jobs lk node_set reason_quoted (job # rest) =
     (if set (nodes_alloc job) \<inter> node_set = {} then notify_jobs lk node_set reason_quoted rest
      else Run (admincomment_command lk (job_id job) reason_quoted)
           # Run (notify_command lk (job_id job) reason_quoted)
           # notify_jobs lk node_set reason_quoted rest)"

definition down_nodes_notify_jobs ::
  "util \<Rightarrow> lookup \<Rightarrow> string list \<Rightarrow> string \<Rightarrow> ResumeData option \<Rightarrow> event list" where
  "down_nodes_notify_jobs u lk ns reason resume_data =
     (let nodelist = to_hostlist_fast u ns;
          reason_quoted = shlex_quote reason
      in [LogError (''Marking nodes '' @ nodelist @ '' as DOWN, reason: '' @ reason),
          Run (mark_down_command lk nodelist reason_quoted)]
         @ (case resume_data of
              None \<Rightarrow> [LogWarning
                ''Cannot update and notify jobs with API failures as no valid resume file is present.'']
            | Some rd \<Rightarrow> notify_jobs lk (set ns) reason_quoted (jobs rd)))"

section \<open>Reconciling the inserts of a finished bulk operation\<close>

record insert_error =
  err_code :: string
  err_message :: "string option"

record insert_op =
  op_name :: string
  targetLink :: string
  op_error :: "insert_error list option"

text \<open>\<open>op["error"]["errors"]\<close>, read only for operations that have an \<open>error\<close>.\<close>

definition op_errors :: "insert_op \<Rightarrow> insert_error list" where
  "op_errors op = (case op_error op of None \<Rightarrow> [] | Some errs \<Rightarrow> errs)"

definition error_key :: "insert_op \<Rightarrow> string" where
  "error_key op = join ''+'' (map err_code (op_errors op))"

definition error_text :: "insert_error \<Rightarrow> string" where
  "error_text err =
     err_code err @ '': '' @ (case err_message err of None \<Rightarrow> ''no message'' | Some m \<Rightarrow> m)"

definition error_msg :: "insert_op \<Rightarrow> string" where
  "error_msg failed_op = join ''; '' (map error_text (op_errors failed_op))"

definition failed_nodes_of :: "util \<Rightarrow> insert_op list \<Rightarrow> (string, insert_op) dict" where
  "failed_nodes_of u failed_ops = dict_of (map (\<lambda>op. (trim_self_link u (targetLink op), op)) failed_ops)"

text \<open>
  The loop over \<open>by_error_inserts\<close>; \<open>after\<close> is what follows the loop.
  \<open>next(iter(failed_nodes.items()))\<close> raises \<open>StopIteration\<close> on an empty dict.
\<close>

fun failed_buckets_loop ::
  "util \<Rightarrow> lookup \<Rightarrow> ResumeData option \<Rightarrow> string \<Rightarrow> event list \<Rightarrow>
   (string \<times> insert_op list) list \<Rightarrow> event list" where
  "failed_buckets_loop u lk resume_data group_id after [] = after"
| "failed_buckets_loop u lk resume_data group_id after ((code, failed_ops) # rest) =
     (let failed_nodes = failed_nodes_of u failed_ops;
          hostlist = to_hostlist u (map fst failed_nodes);
          cnt = length failed_nodes;
          line = LogError (str_nat cnt @ '' instances failed to start: '' @ code @ '' (''
                   @ hostlist @ '') operationGroupId='' @ group_id)
      in case failed_nodes of
           [] \<Rightarrow> [line, Raised StopIteration]
         | (failed_node, failed_op) # others \<Rightarrow>
             let msg = error_msg failed_op
             in line
                # (if code \<noteq> ''RESOURCE_ALREADY_EXISTS''
                   then down_nodes_notify_jobs u lk (map fst failed_nodes) (''GCP Error: '' @ msg)
                          resume_data
                   else [])
                @ LogError (''errors from insert for node '' @ squote @ failed_node @ squote
                     @ '' ('' @ op_name failed_op @ ''): '' @ msg)
                # failed_buckets_loop u lk resume_data group_id after rest)"

definition by_error_inserts :: "insert_op list \<Rightarrow> (string \<times> insert_op list) list" where
  "by_error_inserts ops =
     groupby_unsorted (snd (separate (\<lambda>op. op_error op \<noteq> None) ops)) error_key"

text \<open>
  Lines 424 to 454 of \<open>resume_nodes\<close> for one bulk operation, given the insert
  operations that \<open>get_insert_operations\<close> lists for it.
\<close>

definition reconcile_inserts ::
  "set_iter \<Rightarrow> util \<Rightarrow> lookup \<Rightarrow> ResumeData option \<Rightarrow> string \<Rightarrow> insert_op list \<Rightarrow>
   event list" where
  "reconcile_inserts it u lk resume_data group_id ops =
     (let successful_inserts = fst (separate (\<lambda>op. op_error op \<noteq> None) ops);
          ready_nodes = set (map (\<lambda>op. trim_self_link u (targetLink op)) successful_inserts);
          after = (if card ready_nodes > 0
                   then [LogInfo (''created '' @ str_nat (card ready_nodes) @ '' instances: nodes=''
                           @ to_hostlist_fast u (it ready_nodes))]
                   else [])
      in failed_buckets_loop u lk resume_data group_id after (by_error_inserts ops))"

text \<open>
  The group identifier as the specification words it: the prefix, then \<open>job\<close> and the
  job id unless the job id is absent, then the placement group unless it is absent,
  then the chunk index, joined by colons.
\<close>

definition spec_group_name :: "BulkChunk \<Rightarrow> string" where
  "spec_group_name chunk =
     prefix chunk
       @ (case chunk_job_id chunk of None \<Rightarrow> [] | Some j \<Rightarrow> '':job'' @ str_int j)
       @ (case placement_group chunk of None \<Rightarrow> [] | Some pg \<Rightarrow> '':'' @ pg)
       @ '':'' @ str_nat (chunk_idx chunk)"

section \<open>An example configuration\<close>

text \<open>
  Node names are \<open>cluster-nodeset-index\<close>. The nodesets are \<open>a\<close>, \<open>b\<close>, \<open>p\<close>, \<open>n\<close>
  and \<open>t\<close>, and \<open>other\<close> for every other name: \<open>p\<close> and \<open>n\<close> enable placement, \<open>n\<close>
  runs a machine type of the \<open>n1\<close> family, \<open>t\<close> is a TPU nodeset with groups of two VMs.
\<close>

definition example_nodeset_name :: "string \<Rightarrow> string" where
  "example_nodeset_name n =
     (let s = takeWhile (\<lambda>c. c \<noteq> CHR ''-'') (drop 1 (dropWhile (\<lambda>c. c \<noteq> CHR ''-'') n))
      in if s \<in> set [''a'', ''b'', ''p'', ''n'', ''t''] then s else ''other'')"

definition example_lookup :: lookup where
  "example_lookup =
     \<lparr>slurm_cluster_name = ''c'', scontrol = ''scontrol'',
      node_prefix = (\<lambda>n. ''c-'' @ example_nodeset_name n),
      node_nodeset = (\<lambda>n. \<lparr>nodeset_name = example_nodeset_name n,
                            enable_placement = (example_nodeset_name n \<in> {''p'', ''n''}),
                            tpu_vmcount = 2\<rparr>),
      node_template = (\<lambda>n. ''template-'' @ example_nodeset_name n),
      node_machine_type = (\<lambda>n. if example_nodeset_name n = ''n'' then ''n1-standard-8''
                                 else ''c2-standard-60''),
      node_is_tpu = (\<lambda>n. example_nodeset_name n = ''t''),
      partition_is_tpu = (\<lambda>p. p = ''tpu'')\<rparr>"

definition all_submitted :: provider where
  "all_submitted = (\<lambda>name. Operation)"

definition all_exist :: provider where
  "all_exist = (\<lambda>name. HttpError [[(''reason'', ''alreadyExists'')]])"

definition example_util :: util where
  "example_util = \<lparr>to_hostlist = join '','', to_hostlist_fast = join '','',
     trim_self_link = (\<lambda>link. rev (takeWhile (\<lambda>c. c \<noteq> CHR ''/'') (rev link)))\<rparr>"

definition example_two_errors :: insert_op where
  "example_two_errors =
     \<lparr>op_name = ''operation-1'', targetLink = ''zones/z1/instances/c-a-0'',
      op_error = Some [\<lparr>err_code = ''QUOTA_EXCEEDED'', err_message = None\<rparr>,
                       \<lparr>err_code = ''INTERNAL_ERROR'', err_message = None\<rparr>]\<rparr>"

definition example_already_exists :: insert_op where
  "example_already_exists =
     \<lparr>op_name = ''operation-2'', targetLink = ''zones/z1/instances/c-a-1'',
      op_error = Some [\<lparr>err_code = ''RESOURCE_ALREADY_EXISTS'', err_message = Some ''exists''\<rparr>]\<rparr>"

definition example_quota :: insert_op where
  "example_quota =
     \<lparr>op_name = ''operation-3'', targetLink = ''zones/z1/instances/c-a-2'',
      op_error = Some [\<lparr>err_code = ''QUOTA_EXCEEDED'', err_message = Some ''no quota''\<rparr>]\<rparr>"

definition example_jobs :: ResumeData where
  "example_jobs =
     \<lparr>jobs = [\<lparr>job_id = 5, partition = ''batch'', nodes_alloc = [''c-a-2'', ''c-a-3'']\<rparr>,
              \<lparr>job_id = 6, partition = ''batch'', nodes_alloc = [''c-b-0'']\<rparr>]\<rparr>"

section \<open>Notions used in the statements\<close>

text \<open>Reading a decimal numeral back, the left inverse of \<^const>\<open>str_nat\<close>.\<close>

definition digit_val :: "char \<Rightarrow> nat" where
  "digit_val c = of_char c - 48"

definition nat_of_digits :: "string \<Rightarrow> nat" where
  "nat_of_digits s = foldl (\<lambda>acc c. 10 * acc + digit_val c) 0 s"

text \<open>The string \<open>t\<close> occurs in the string \<open>s\<close>.\<close>

definition occurs_in :: "string \<Rightarrow> string \<Rightarrow> bool" where
  "occurs_in t s = (\<exists>a b. s = a @ t @ b)"

text \<open>A command that marks some host range down, for some reason.\<close>

definition is_mark_down :: "lookup \<Rightarrow> string \<Rightarrow> bool" where
  "is_mark_down lk c = (\<exists>nl rq. c = mark_down_command lk nl rq)"

text \<open>
  The branch of \<open>create_nodeset_placement_groups\<close> that creates groups, the items of
  its \<open>groups\<close> dict, and the names that \<open>classify_result\<close> files under a key.
\<close>

definition uses_placement :: "lookup \<Rightarrow> string list \<Rightarrow> bool" where
  "uses_placement lk node_list =
     (2 \<le> length node_list \<and> enable_placement (node_nodeset lk (hd node_list))
      \<and> valid_placement_nodes lk node_list)"

definition group_items :: "lookup \<Rightarrow> string list \<Rightarrow> int \<Rightarrow> (string \<times> string list) list" where
  "group_items lk node_list job =
     map (\<lambda>(i, ns). (placement_group_name lk (node_nodeset lk (hd node_list)) job i, ns))
         (enumerate_from0 (chunked node_list PLACEMENT_MAX_CNT))"

definition classified :: "provider \<Rightarrow> string \<Rightarrow> string list \<Rightarrow> string list" where
  "classified prov key names = filter (\<lambda>g. classify_result (g, prov g) = key) names"

text \<open>
  The reason given when a failure bucket is quarantined (built from the first item of
  \<open>failed_nodes\<close>), and the commands run for a bucket.
\<close>

definition bucket_reason :: "util \<Rightarrow> insert_op list \<Rightarrow> string" where
  "bucket_reason u failed_ops = ''GCP Error: '' @ error_msg (snd (hd (failed_nodes_of u failed_ops)))"

definition bucket_commands ::
  "util \<Rightarrow> lookup \<Rightarrow> ResumeData option \<Rightarrow> string \<times> insert_op list \<Rightarrow> string list" where
  "bucket_commands u lk resume_data bucket =
     (if fst bucket \<noteq> ''RESOURCE_ALREADY_EXISTS''
      then commands_run (down_nodes_notify_jobs u lk (map fst (failed_nodes_of u (snd bucket)))
                           (bucket_reason u (snd bucket)) resume_data)
      else [])"

section \<open>Dictionaries and grouping\<close>

lemma update_fresh: "k \<notin> fst ` set d \<Longrightarrow> AList.update k v d = d @ [(k, v)]"
  by (induction d) auto

lemma dict_update_all_distinct:
  "distinct (map fst (d @ items)) \<Longrightarrow> dict_update_all d items = d @ items"
proof (induction items arbitrary: d)
  case Nil
  then show ?case by (simp add: dict_update_all_def)
next
  case (Cons kv items)
  have fresh: "fst kv \<notin> fst ` set d" using Cons.prems by auto
  have "dict_update_all d (kv # items) = dict_update_all (AList.update (fst kv) (snd kv) d) items"
    by (simp add: dict_update_all_def)
  also have "\<dots> = dict_update_all (d @ [kv]) items"
    using fresh by (simp add: update_fresh)
  also have "\<dots> = (d @ [kv]) @ items"
    using Cons.prems by (intro Cons.IH) simp
  finally show ?case by simp
qed

lemma dict_of_distinct: "distinct (map fst items) \<Longrightarrow> dict_of items = items"
  using dict_update_all_distinct [of "[]" items] by (simp add: dict_of_def)

lemma distinct_dict_update_all:
  "distinct (map fst d) \<Longrightarrow> distinct (map fst (dict_update_all d items))"
  by (induction items arbitrary: d) (simp_all add: dict_update_all_def distinct_update)

lemma distinct_dict_of: "distinct (map fst (dict_of items))"
  by (simp add: dict_of_def distinct_dict_update_all)

lemma keys_dict_update_all:
  "fst ` set (dict_update_all d items) = fst ` set d \<union> fst ` set items"
proof (induction items arbitrary: d)
  case Nil
  then show ?case by (simp add: dict_update_all_def)
next
  case (Cons kv items)
  have "fst ` set (AList.update (fst kv) (snd kv) d) = insert (fst kv) (fst ` set d)"
    using dom_update [of "fst kv" "snd kv" d] by simp
  with Cons.IH [of "AList.update (fst kv) (snd kv) d"] show ?case
    by (simp add: dict_update_all_def)
qed

lemma keys_dict_of: "fst ` set (dict_of items) = fst ` set items"
  by (simp add: dict_of_def keys_dict_update_all)

lemma set_update_subset: "set (AList.update k v d) \<subseteq> insert (k, v) (set d)"
  by (induction d) auto

lemma set_dict_update_all_subset: "set (dict_update_all d items) \<subseteq> set d \<union> set items"
proof (induction items arbitrary: d)
  case Nil
  then show ?case by (simp add: dict_update_all_def)
next
  case (Cons kv items)
  have "set (dict_update_all d (kv # items))
          \<subseteq> set (AList.update (fst kv) (snd kv) d) \<union> set items"
    using Cons.IH [of "AList.update (fst kv) (snd kv) d"] by (simp add: dict_update_all_def)
  also have "\<dots> \<subseteq> insert kv (set d) \<union> set items"
    using set_update_subset [of "fst kv" "snd kv" d] by auto
  finally show ?case by auto
qed

lemma set_dict_of_subset: "set (dict_of items) \<subseteq> set items"
  using set_dict_update_all_subset [of "[]" items] by (simp add: dict_of_def)

lemma distinct_first_keys: "distinct (rev (remdups (rev ks)))"
  by simp

lemma groupby_unsorted_keys:
  "map fst (groupby_unsorted xs key) = rev (remdups (rev (map key xs)))"
  by (simp add: groupby_unsorted_def comp_def)

lemma distinct_groupby_unsorted: "distinct (map fst (groupby_unsorted xs key))"
  by (simp add: groupby_unsorted_keys)

lemma groupby_unsorted_mem:
  "(k, g) \<in> set (groupby_unsorted xs key) \<longleftrightarrow> k \<in> key ` set xs \<and> g = filter (\<lambda>x. key x = k) xs"
  by (auto simp: groupby_unsorted_def)

lemma groupby_unsorted_nonempty:
  assumes "(k, g) \<in> set (groupby_unsorted xs key)"
  shows "g \<noteq> []"
proof -
  from assms obtain x where "x \<in> set xs" "key x = k" and g: "g = filter (\<lambda>x. key x = k) xs"
    by (auto simp: groupby_unsorted_mem)
  then have "x \<in> set g" by simp
  then show ?thesis by auto
qed

lemma map_of_groupby_unsorted:
  "map_of (groupby_unsorted xs key) k =
     (if k \<in> key ` set xs then Some (filter (\<lambda>x. key x = k) xs) else None)"
proof (cases "k \<in> key ` set xs")
  case True
  then have "(k, filter (\<lambda>x. key x = k) xs) \<in> set (groupby_unsorted xs key)"
    by (simp add: groupby_unsorted_mem)
  then show ?thesis
    using True distinct_groupby_unsorted [of xs key] by simp
next
  case False
  then have "k \<notin> fst ` set (groupby_unsorted xs key)"
    by (auto simp: groupby_unsorted_mem)
  then show ?thesis using False by (simp add: map_of_eq_None_iff)
qed

section \<open>Decimal numerals\<close>

lemma of_char_digit_char: "d < 10 \<Longrightarrow> (of_char (digit_char d) :: nat) = 48 + d"
  by (simp add: digit_char_def)

lemma digit_val_digit_char: "d < 10 \<Longrightarrow> digit_val (digit_char d) = d"
  by (simp add: digit_val_def of_char_digit_char)

lemma nat_of_digits_snoc: "nat_of_digits (s @ [c]) = 10 * nat_of_digits s + digit_val c"
  by (simp add: nat_of_digits_def)

lemma nat_of_digits_str_nat: "nat_of_digits (str_nat n) = n"
proof (induction n rule: str_nat.induct)
  case (1 n)
  show ?case
  proof (cases "n < 10")
    case True
    then show ?thesis
      by (subst str_nat.simps) (simp add: nat_of_digits_def digit_val_digit_char)
  next
    case False
    with "1.IH" have "nat_of_digits (str_nat (n div 10)) = n div 10" by simp
    with False show ?thesis
      by (subst str_nat.simps) (simp add: nat_of_digits_snoc digit_val_digit_char)
  qed
qed

lemma str_nat_inject: "str_nat a = str_nat b \<Longrightarrow> a = b"
  using nat_of_digits_str_nat by metis

lemma str_nat_digits: "c \<in> set (str_nat n) \<Longrightarrow> 48 \<le> (of_char c :: nat) \<and> (of_char c :: nat) \<le> 57"
proof (induction n rule: str_nat.induct)
  case (1 n)
  show ?case
  proof (cases "n < 10")
    case True
    with "1.prems" have "c = digit_char n" by (subst (asm) str_nat.simps) simp
    with True show ?thesis by (simp add: of_char_digit_char)
  next
    case False
    with "1.prems" have "c \<in> set (str_nat (n div 10)) \<or> c = digit_char (n mod 10)"
      by (subst (asm) str_nat.simps) auto
    then show ?thesis
    proof
      assume "c \<in> set (str_nat (n div 10))"
      with False "1.IH" show ?thesis by simp
    next
      assume "c = digit_char (n mod 10)"
      then show ?thesis by (simp add: of_char_digit_char)
    qed
  qed
qed

lemma str_nat_nonempty: "str_nat n \<noteq> []"
  by (subst str_nat.simps) simp

lemma colon_notin_str_nat: "CHR '':'' \<notin> set (str_nat n)"
  using str_nat_digits [of "CHR '':''" n] by auto

lemma dash_notin_str_nat: "CHR ''-'' \<notin> set (str_nat n)"
  using str_nat_digits [of "CHR ''-''" n] by auto

lemma N_notin_str_nat: "CHR ''N'' \<notin> set (str_nat n)"
  using str_nat_digits [of "CHR ''N''" n] by auto

lemma str_int_inject: "str_int a = str_int b \<Longrightarrow> a = b"
proof -
  assume eq: "str_int a = str_int b"
  have hd_nat: "\<And>n. hd (str_nat n) \<noteq> CHR ''-''"
    using dash_notin_str_nat str_nat_nonempty by (metis hd_in_set)
  show ?thesis
  proof (cases "a < 0"; cases "b < 0")
    assume "a < 0" "b < 0"
    with eq have "nat (- a) = nat (- b)" by (auto simp: str_int_def dest: str_nat_inject)
    with \<open>a < 0\<close> \<open>b < 0\<close> show ?thesis by simp
  next
    assume "a < 0" "\<not> b < 0"
    with eq have "CHR ''-'' # str_nat (nat (- a)) = str_nat (nat b)" by (simp add: str_int_def)
    then have "hd (str_nat (nat b)) = CHR ''-''" by (metis list.sel(1))
    with hd_nat show ?thesis by blast
  next
    assume "\<not> a < 0" "b < 0"
    with eq have "str_nat (nat a) = CHR ''-'' # str_nat (nat (- b))" by (simp add: str_int_def)
    then have "hd (str_nat (nat a)) = CHR ''-''" by (metis list.sel(1))
    with hd_nat show ?thesis by blast
  next
    assume "\<not> a < 0" "\<not> b < 0"
    with eq have "nat a = nat b" by (auto simp: str_int_def dest: str_nat_inject)
    with \<open>\<not> a < 0\<close> \<open>\<not> b < 0\<close> show ?thesis by simp
  qed
qed

lemma colon_notin_str_int: "CHR '':'' \<notin> set (str_int i)"
  by (simp add: str_int_def colon_notin_str_nat)

lemma N_notin_str_int: "CHR ''N'' \<notin> set (str_int i)"
  by (simp add: str_int_def N_notin_str_nat)

lemma str_opt_int_inject: "str_opt_int a = str_opt_int b \<Longrightarrow> a = b"
proof (cases a; cases b)
  fix i assume "a = None" "b = Some i" "str_opt_int a = str_opt_int b"
  then have "CHR ''N'' \<in> set (str_int i)" by (simp add: str_opt_int_def) (metis list.set_intros(1))
  then show ?thesis using N_notin_str_int by blast
next
  fix i assume "a = Some i" "b = None" "str_opt_int a = str_opt_int b"
  then have "CHR ''N'' \<in> set (str_int i)" by (simp add: str_opt_int_def)
  then show ?thesis using N_notin_str_int by blast
qed (auto simp: str_opt_int_def dest: str_int_inject)

lemma colon_notin_str_opt_int: "CHR '':'' \<notin> set (str_opt_int j)"
  by (cases j) (simp_all add: str_opt_int_def colon_notin_str_int)

lemma placement_group_name_inject:
  "placement_group_name lk ns job i = placement_group_name lk ns job k \<Longrightarrow> i = k"
  by (simp add: placement_group_name_def str_nat_inject)

lemma placement_group_name_nonempty: "placement_group_name lk ns job i \<noteq> []"
  by (simp add: placement_group_name_def)

section \<open>The outcome of creating placement groups\<close>

lemma map_fst_zip_fun: "length xs = length ys \<Longrightarrow> map (\<lambda>p. f (fst p)) (zip xs ys) = map f xs"
  by (induction xs ys rule: list_induct2) auto

lemma group_items_keys:
  "map fst (group_items lk node_list job) =
     map (placement_group_name lk (node_nodeset lk (hd node_list)) job)
         [0..<length (chunked node_list PLACEMENT_MAX_CNT)]"
proof -
  let ?f = "placement_group_name lk (node_nodeset lk (hd node_list)) job"
  let ?cs = "chunked node_list PLACEMENT_MAX_CNT"
  have "map fst (group_items lk node_list job) = map (\<lambda>p. ?f (fst p)) (zip [0..<length ?cs] ?cs)"
    by (simp add: group_items_def enumerate_from0_def enumerate_eq_zip comp_def case_prod_unfold)
  also have "\<dots> = map ?f [0..<length ?cs]"
    by (rule map_fst_zip_fun) simp
  finally show ?thesis .
qed

lemma distinct_group_items: "distinct (map fst (group_items lk node_list job))"
  unfolding group_items_keys
  by (simp add: distinct_map inj_on_def placement_group_name_inject)

lemma get_classified:
  assumes "distinct names"
  shows "(case map_of (dict_of (groupby_unsorted (dict_of (map (\<lambda>g. (g, prov g)) names)) classify_result)) key of
            None \<Rightarrow> [] | Some items \<Rightarrow> dict_of items)
         = map (\<lambda>g. (g, prov g)) (classified prov key names)"
proof -
  let ?ops = "map (\<lambda>g. (g, prov g)) names"
  have keys: "map fst ?ops = names" by (simp add: comp_def)
  have "distinct (map fst ?ops)" using assms by (simp add: comp_def)
  then have ops: "dict_of ?ops = ?ops" by (rule dict_of_distinct)
  have grouped: "dict_of (groupby_unsorted ?ops classify_result) = groupby_unsorted ?ops classify_result"
    by (simp add: dict_of_distinct distinct_groupby_unsorted)
  have flt: "filter (\<lambda>x. classify_result x = key) ?ops = map (\<lambda>g. (g, prov g)) (classified prov key names)"
    by (simp add: classified_def filter_map comp_def)
  have "distinct (map fst (map (\<lambda>g. (g, prov g)) (classified prov key names)))"
    using assms by (simp add: comp_def classified_def)
  then have d: "dict_of (map (\<lambda>g. (g, prov g)) (classified prov key names))
                 = map (\<lambda>g. (g, prov g)) (classified prov key names)"
    by (rule dict_of_distinct)
  show ?thesis
  proof (cases "key \<in> classify_result ` set ?ops")
    case True
    then show ?thesis
      unfolding ops grouped map_of_groupby_unsorted by (simp only: if_True option.case flt d)
  next
    case False
    then have "filter (\<lambda>x. classify_result x = key) ?ops = []"
      by (auto simp: filter_empty_conv)
    with flt have "map (\<lambda>g. (g, prov g)) (classified prov key names) = []" by simp
    with False show ?thesis
      unfolding ops grouped map_of_groupby_unsorted by (simp only: if_False option.case)
  qed
qed

lemma create_nodeset_placement_groups_placed:
  assumes "uses_placement lk node_list"
  shows "create_nodeset_placement_groups lk prov node_list job =
           \<lparr>pg_requests = map fst (group_items lk node_list job),
            pg_submitted = classified prov ''submitted'' (map fst (group_items lk node_list job)),
            pg_redundant = classified prov ''redundant'' (map fst (group_items lk node_list job)),
            pg_failed = classified prov ''failed'' (map fst (group_items lk node_list job)),
            pg_returned = (if classified prov ''failed'' (map fst (group_items lk node_list job)) \<noteq> []
                           then Inl TypeError
                           else Inr (map (\<lambda>(g, ns). (Some g, ns)) (group_items lk node_list job)))\<rparr>"
proof -
  let ?items = "group_items lk node_list job"
  have groups: "dict_of ?items = ?items"
    by (simp add: dict_of_distinct distinct_group_items)
  have dn: "distinct (map fst ?items)" by (rule distinct_group_items)
  have br: "\<not> length node_list < 2"
       "enable_placement (node_nodeset lk (hd node_list)) \<and> valid_placement_nodes lk node_list"
    using assms by (auto simp: uses_placement_def)
  show ?thesis
    unfolding create_nodeset_placement_groups_def Let_def group_items_def [symmetric] groups
      get_classified [OF dn]
    using br by (simp add: comp_def)
qed

lemma create_nodeset_placement_groups_not_placed:
  assumes "\<not> uses_placement lk node_list"
  shows "create_nodeset_placement_groups lk prov node_list job = no_requests [(None, node_list)]"
  using assms by (auto simp: create_nodeset_placement_groups_def uses_placement_def Let_def)

section \<open>Commands run when nodes are marked down\<close>

lemma commands_run_Cons [simp]:
  "commands_run (Run c # evs) = c # commands_run evs"
  "commands_run (LogError m # evs) = commands_run evs"
  "commands_run (LogWarning m # evs) = commands_run evs"
  "commands_run (LogInfo m # evs) = commands_run evs"
  "commands_run (Raised e # evs) = commands_run evs"
  "commands_run [] = []"
  by (simp_all add: commands_run_def)

lemma commands_run_append [simp]:
  "commands_run (xs @ ys) = commands_run xs @ commands_run ys"
  by (simp add: commands_run_def)


lemma commands_run_notify_jobs:
  "commands_run (notify_jobs lk S rq js) =
     concat (map (\<lambda>job. [admincomment_command lk (job_id job) rq, notify_command lk (job_id job) rq])
                 (filter (\<lambda>job. set (nodes_alloc job) \<inter> S \<noteq> {}) js))"
  by (induction js) auto

lemma admincomment_not_mark_down:
  "admincomment_command lk j rq \<noteq> mark_down_command lk nl rq'"
  by (simp add: admincomment_command_def mark_down_command_def)

lemma notify_not_mark_down:
  "notify_command lk j rq \<noteq> mark_down_command lk nl rq'"
  by (simp add: notify_command_def mark_down_command_def)


lemma no_mark_down_in_notify_jobs:
  "filter (is_mark_down lk) (commands_run (notify_jobs lk S rq js)) = []"
  by (induction js) (auto simp: is_mark_down_def admincomment_not_mark_down notify_not_mark_down)

section \<open>Failure buckets\<close>

lemma failed_nodes_of_keys:
  "set (map fst (failed_nodes_of u fops)) = (\<lambda>op. trim_self_link u (targetLink op)) ` set fops"
  by (simp add: failed_nodes_of_def keys_dict_of image_image)

lemma failed_nodes_of_nonempty: "fops \<noteq> [] \<Longrightarrow> failed_nodes_of u fops \<noteq> []"
  using failed_nodes_of_keys [of u fops] by auto

lemma representative_in_bucket:
  assumes "fops \<noteq> []"
  shows "snd (hd (failed_nodes_of u fops)) \<in> set fops"
proof -
  have "hd (failed_nodes_of u fops) \<in> set (failed_nodes_of u fops)"
    using assms by (simp add: failed_nodes_of_nonempty)
  then have "hd (failed_nodes_of u fops) \<in> set (map (\<lambda>op. (trim_self_link u (targetLink op), op)) fops)"
    using set_dict_of_subset unfolding failed_nodes_of_def by blast
  then show ?thesis by auto
qed

lemma commands_run_failed_buckets_loop:
  assumes "\<forall>b \<in> set buckets. snd b \<noteq> []"
  shows "commands_run (failed_buckets_loop u lk rd gid after buckets) =
           concat (map (bucket_commands u lk rd) buckets) @ commands_run after"
  using assms
proof (induction buckets)
  case Nil
  then show ?case by simp
next
  case (Cons b buckets)
  obtain code fops where b: "b = (code, fops)" by (cases b)
  with Cons.prems have "failed_nodes_of u fops \<noteq> []" by (simp add: failed_nodes_of_nonempty)
  then obtain failed_node failed_op others
    where fn: "failed_nodes_of u fops = (failed_node, failed_op) # others"
    by (cases "failed_nodes_of u fops") auto
  have IH: "commands_run (failed_buckets_loop u lk rd gid after buckets) =
           concat (map (bucket_commands u lk rd) buckets) @ commands_run after"
    using Cons by simp
  show ?case
    unfolding b
    by (simp add: Let_def fn IH bucket_commands_def [of u lk rd "(code, fops)"]
          bucket_reason_def [of u fops])
qed

lemma by_error_inserts_mem:
  "(code, fops) \<in> set (by_error_inserts ops) \<Longrightarrow>
     fops \<noteq> [] \<and> fops = filter (\<lambda>op. op_error op \<noteq> None \<and> error_key op = code) ops"
proof -
  assume mem: "(code, fops) \<in> set (by_error_inserts ops)"
  let ?failed = "filter (\<lambda>op. op_error op \<noteq> None) ops"
  from mem have g: "(code, fops) \<in> set (groupby_unsorted ?failed error_key)"
    by (simp add: by_error_inserts_def separate_def)
  then have "fops = filter (\<lambda>op. error_key op = code) ?failed"
    by (simp add: groupby_unsorted_mem)
  then have "fops = filter (\<lambda>op. op_error op \<noteq> None \<and> error_key op = code) ops"
    by (simp add: conj_commute)
  with groupby_unsorted_nonempty [OF g] show ?thesis by simp
qed

lemma occurs_in_join: "x \<in> set xs \<Longrightarrow> occurs_in x (join sep xs)"
proof (induction sep xs rule: join.induct)
  case (1 sep)
  then show ?case by simp
next
  case (2 sep y)
  then have "join sep [y] = [] @ x @ []" by simp
  then show ?case unfolding occurs_in_def by blast
next
  case (3 sep y z zs)
  show ?case
  proof (cases "x = y")
    case True
    then have "join sep (y # z # zs) = [] @ x @ (sep @ join sep (z # zs))" by simp
    then show ?thesis unfolding occurs_in_def by blast
  next
    case False
    with 3 obtain a b where "join sep (z # zs) = a @ x @ b"
      unfolding occurs_in_def by auto
    then have "join sep (y # z # zs) = (y @ sep @ a) @ x @ b" by simp
    then show ?thesis unfolding occurs_in_def by blast
  qed
qed

lemma occurs_in_trans: "occurs_in a b \<Longrightarrow> occurs_in b c \<Longrightarrow> occurs_in a c"
  unfolding occurs_in_def by (metis append.assoc)

lemma occurs_in_append_left: "occurs_in t s \<Longrightarrow> occurs_in t (p @ s)"
  unfolding occurs_in_def by (metis append.assoc)

lemma code_occurs_in_error_text: "occurs_in (err_code e) (error_text e)"
  unfolding occurs_in_def error_text_def by (metis append_Nil)

lemma code_occurs_in_reason:
  assumes "e \<in> set (op_errors (snd (hd (failed_nodes_of u fops))))"
  shows "occurs_in (err_code e) (bucket_reason u fops)"
proof -
  have "occurs_in (error_text e) (error_msg (snd (hd (failed_nodes_of u fops))))"
    unfolding error_msg_def using assms by (intro occurs_in_join) simp
  with code_occurs_in_error_text have "occurs_in (err_code e) (error_msg (snd (hd (failed_nodes_of u fops))))"
    by (rule occurs_in_trans)
  then show ?thesis unfolding bucket_reason_def by (rule occurs_in_append_left)
qed

lemma plus_in_join:
  assumes "2 \<le> length xs"
  shows "CHR ''+'' \<in> set (join ''+'' xs)"
proof -
  from assms obtain x y zs where "xs = x # y # zs"
    by (cases xs; cases "tl xs") auto
  then show ?thesis by simp
qed

lemma single_code_occurs_in_reason:
  assumes "(code, fops) \<in> set (by_error_inserts ops)" and "CHR ''+'' \<notin> set code"
  shows "occurs_in code (bucket_reason u fops)"
proof -
  let ?rep = "snd (hd (failed_nodes_of u fops))"
  from by_error_inserts_mem [OF assms(1)]
  have ne: "fops \<noteq> []"
    and fops: "fops = filter (\<lambda>op. op_error op \<noteq> None \<and> error_key op = code) ops"
    by blast+
  have "?rep \<in> set fops" using ne by (rule representative_in_bucket)
  then have "?rep \<in> set (filter (\<lambda>op. op_error op \<noteq> None \<and> error_key op = code) ops)"
    using fops by simp
  then have key: "error_key ?rep = code" by simp
  with assms(2) have "\<not> 2 \<le> length (map err_code (op_errors ?rep))"
    using plus_in_join unfolding error_key_def by metis
  then consider "op_errors ?rep = []" | e where "op_errors ?rep = [e]"
    by (cases "op_errors ?rep"; cases "tl (op_errors ?rep)") auto
  then show ?thesis
  proof cases
    case 1
    with key have "code = []" by (simp add: error_key_def)
    then show ?thesis unfolding occurs_in_def by (metis append_Nil append_Nil2)
  next
    case (2 e)
    with key have "code = err_code e" by (simp add: error_key_def)
    moreover have "occurs_in (err_code e) (bucket_reason u fops)"
      using 2 by (intro code_occurs_in_reason) simp
    ultimately show ?thesis by simp
  qed
qed

section \<open>The no-policy bucket\<close>

lemma valid_placement_nodes_iff:
  "valid_placement_nodes lk nodelist =
     (\<forall>n \<in> set nodelist. split_dash_first (node_machine_type lk n) \<notin> set invalid_types)"
  by (induction nodelist) auto

text \<open>
  C6. A node list with fewer than two nodes, or whose nodeset (the nodeset of its first
  node) has placement disabled, or with a node whose machine type is of one of the
  families e2, t2d, n1, t2a, m1, m2, m3, comes back as the single bucket that maps the
  absent placement group to the whole list, and no creation request is sent.
\<close>

theorem no_policy_single_bucket:
  assumes "length node_list < 2
           \<or> \<not> enable_placement (node_nodeset lk (hd node_list))
           \<or> (\<exists>n \<in> set node_list. split_dash_first (node_machine_type lk n)
                 \<in> {''e2'', ''t2d'', ''n1'', ''t2a'', ''m1'', ''m2'', ''m3''})"
  shows "pg_returned (create_nodeset_placement_groups lk prov node_list job)
           = Inr [(None, node_list)]
         \<and> pg_requests (create_nodeset_placement_groups lk prov node_list job) = []"
proof (cases "length node_list < 2")
  case True
  then show ?thesis
    by (simp add: create_nodeset_placement_groups_def no_requests_def)
next
  case False
  with assms have "\<not> (enable_placement (node_nodeset lk (hd node_list))
                      \<and> valid_placement_nodes lk node_list)"
    unfolding valid_placement_nodes_iff invalid_types_def by auto
  with False show ?thesis
    by (simp add: create_nodeset_placement_groups_def no_requests_def Let_def)
qed

theorem no_policy_single_bucket_witness:
  "(\<exists>n \<in> set [''c-n-0'', ''c-n-1'', ''c-n-2''].
      split_dash_first (node_machine_type example_lookup n)
        \<in> {''e2'', ''t2d'', ''n1'', ''t2a'', ''m1'', ''m2'', ''m3''})
   \<and> enable_placement (node_nodeset example_lookup ''c-n-0'')
   \<and> pg_returned (create_nodeset_placement_groups example_lookup all_submitted
        [''c-n-0'', ''c-n-1'', ''c-n-2''] 7) = Inr [(None, [''c-n-0'', ''c-n-1'', ''c-n-2''])]
   \<and> pg_requests (create_nodeset_placement_groups example_lookup all_submitted
        [''c-n-0'', ''c-n-1'', ''c-n-2''] 7) = []"
proof -
  have fam: "\<exists>n \<in> set [''c-n-0'', ''c-n-1'', ''c-n-2''].
      split_dash_first (node_machine_type example_lookup n)
        \<in> {''e2'', ''t2d'', ''n1'', ''t2a'', ''m1'', ''m2'', ''m3''}"
    by (simp add: example_lookup_def example_nodeset_name_def split_dash_first_def)
  have en: "enable_placement (node_nodeset example_lookup ''c-n-0'')"
    by (simp add: example_lookup_def example_nodeset_name_def)
  from fam en
    no_policy_single_bucket [of "[''c-n-0'', ''c-n-1'', ''c-n-2'']" example_lookup all_submitted 7]
  show ?thesis by blast
qed

section \<open>Quarantine\<close>

text \<open>
  C8. For every node set and reason the commands that the quarantine routine runs are:
  first one command that marks down the compressed host range of the whole node set,
  and no other command of that kind; without resume data nothing else; with resume data
  one comment update and one notification for each job whose allocation meets the node
  set, and for no other job.
\<close>

theorem quarantine_commands:
  "commands_run (down_nodes_notify_jobs u lk ns reason resume_data) =
     mark_down_command lk (to_hostlist_fast u ns) (shlex_quote reason)
     # (case resume_data of
          None \<Rightarrow> []
        | Some rd \<Rightarrow>
            concat (map (\<lambda>job. [admincomment_command lk (job_id job) (shlex_quote reason),
                                notify_command lk (job_id job) (shlex_quote reason)])
                        (filter (\<lambda>job. set (nodes_alloc job) \<inter> set ns \<noteq> {}) (jobs rd))))
   \<and> length (filter (is_mark_down lk)
               (commands_run (down_nodes_notify_jobs u lk ns reason resume_data))) = 1"
proof -
  have "is_mark_down lk (mark_down_command lk (to_hostlist_fast u ns) (shlex_quote reason))"
    unfolding is_mark_down_def by blast
  then show ?thesis
    by (cases resume_data)
       (simp_all add: down_nodes_notify_jobs_def Let_def commands_run_notify_jobs [symmetric]
          no_mark_down_in_notify_jobs)
qed

theorem quarantine_commands_witness:
  "commands_run (down_nodes_notify_jobs example_util example_lookup [''c-a-1'', ''c-a-2'']
      ''GCP Error: QUOTA_EXCEEDED: no quota'' (Some example_jobs)) =
     [mark_down_command example_lookup ''c-a-1,c-a-2'' (shlex_quote ''GCP Error: QUOTA_EXCEEDED: no quota''),
      admincomment_command example_lookup 5 (shlex_quote ''GCP Error: QUOTA_EXCEEDED: no quota''),
      notify_command example_lookup 5 (shlex_quote ''GCP Error: QUOTA_EXCEEDED: no quota'')]
   \<and> commands_run (down_nodes_notify_jobs example_util example_lookup [''c-a-1'', ''c-a-2'']
      ''GCP Error: QUOTA_EXCEEDED: no quota'' None) =
     [mark_down_command example_lookup ''c-a-1,c-a-2'' (shlex_quote ''GCP Error: QUOTA_EXCEEDED: no quota'')]
   \<and> length (filter (is_mark_down example_lookup)
        (commands_run (down_nodes_notify_jobs example_util example_lookup [''c-a-1'', ''c-a-2'']
           ''GCP Error: QUOTA_EXCEEDED: no quota'' (Some example_jobs)))) = 1"
proof -
  have hl: "to_hostlist_fast example_util [''c-a-1'', ''c-a-2''] = ''c-a-1,c-a-2''"
    by (simp add: example_util_def)
  have js: "filter (\<lambda>job. set (nodes_alloc job) \<inter> set [''c-a-1'', ''c-a-2''] \<noteq> {}) (jobs example_jobs)
              = [\<lparr>job_id = 5, partition = ''batch'', nodes_alloc = [''c-a-2'', ''c-a-3'']\<rparr>]"
    by (simp add: example_jobs_def)
  note with_jobs = quarantine_commands [of example_util example_lookup "[''c-a-1'', ''c-a-2'']"
         "''GCP Error: QUOTA_EXCEEDED: no quota''" "Some example_jobs", unfolded option.case hl js]
  note without = quarantine_commands [of example_util example_lookup "[''c-a-1'', ''c-a-2'']"
         "''GCP Error: QUOTA_EXCEEDED: no quota''" None, unfolded option.case hl]
  have a: "commands_run (down_nodes_notify_jobs example_util example_lookup [''c-a-1'', ''c-a-2'']
      ''GCP Error: QUOTA_EXCEEDED: no quota'' (Some example_jobs)) =
     [mark_down_command example_lookup ''c-a-1,c-a-2'' (shlex_quote ''GCP Error: QUOTA_EXCEEDED: no quota''),
      admincomment_command example_lookup 5 (shlex_quote ''GCP Error: QUOTA_EXCEEDED: no quota''),
      notify_command example_lookup 5 (shlex_quote ''GCP Error: QUOTA_EXCEEDED: no quota'')]"
    using with_jobs [THEN conjunct1] by simp
  from a with_jobs [THEN conjunct2] without [THEN conjunct1] show ?thesis by blast
qed

section \<open>Creating placement groups twice\<close>

lemma classify_redundant:
  "\<forall>e \<in> set details. map_of e ''reason'' = Some ''alreadyExists'' \<Longrightarrow>
     classify_result (g, HttpError details) = ''redundant''"
  by (simp add: list_all_iff)

lemma pg_requests_eq:
  "pg_requests (create_nodeset_placement_groups lk prov node_list job) =
     (if uses_placement lk node_list
      then map (placement_group_name lk (node_nodeset lk (hd node_list)) job)
               [0..<length (chunked node_list PLACEMENT_MAX_CNT)]
      else [])"
  by (simp add: create_nodeset_placement_groups_placed create_nodeset_placement_groups_not_placed
        no_requests_def group_items_keys)

lemma pg_redundant_eq:
  "pg_redundant (create_nodeset_placement_groups lk prov node_list job) =
     classified prov ''redundant'' (pg_requests (create_nodeset_placement_groups lk prov node_list job))"
  by (cases "uses_placement lk node_list")
     (simp_all add: create_nodeset_placement_groups_placed create_nodeset_placement_groups_not_placed
        no_requests_def classified_def)

lemma pg_failed_eq:
  "pg_failed (create_nodeset_placement_groups lk prov node_list job) =
     classified prov ''failed'' (pg_requests (create_nodeset_placement_groups lk prov node_list job))"
  by (cases "uses_placement lk node_list")
     (simp_all add: create_nodeset_placement_groups_placed create_nodeset_placement_groups_not_placed
        no_requests_def classified_def)

lemma pg_returned_eq:
  "pg_returned (create_nodeset_placement_groups lk prov node_list job) =
     (if pg_failed (create_nodeset_placement_groups lk prov node_list job) \<noteq> [] then Inl TypeError
      else Inr (if uses_placement lk node_list
                then map (\<lambda>(g, ns). (Some g, ns)) (group_items lk node_list job)
                else [(None, node_list)]))"
  by (cases "uses_placement lk node_list")
     (simp_all add: create_nodeset_placement_groups_placed create_nodeset_placement_groups_not_placed
        no_requests_def)

text \<open>
  C5. Two calls of the placement-group routine with the same node list and job id, whatever
  the provider answers (\<open>first\<close> and \<open>second\<close>), request the same group names, which
  are built from the cluster name, the nodeset name, the job id and the index of the slice.
  In the second call every group whose creation fails with \<open>alreadyExists\<close> as the only
  reason is filed under redundant and not under failed; if that is so for all groups,
  the call returns, with the same mapping that the first call returned.
\<close>

theorem placement_groups_idempotent:
  "pg_requests (create_nodeset_placement_groups lk second node_list job)
     = pg_requests (create_nodeset_placement_groups lk first node_list job)
   \<and> (\<exists>k. pg_requests (create_nodeset_placement_groups lk second node_list job)
          = map (\<lambda>i. slurm_cluster_name lk @ ''-slurmgcp-managed-''
                     @ nodeset_name (node_nodeset lk (hd node_list)) @ ''-'' @ str_int job @ ''-''
                     @ str_nat i) [0..<k])
   \<and> (\<forall>g \<in> set (pg_requests (create_nodeset_placement_groups lk second node_list job)).
        \<forall>details. second g = HttpError details
          \<and> (\<forall>e \<in> set details. map_of e ''reason'' = Some ''alreadyExists'') \<longrightarrow>
          g \<in> set (pg_redundant (create_nodeset_placement_groups lk second node_list job))
          \<and> g \<notin> set (pg_failed (create_nodeset_placement_groups lk second node_list job)))
   \<and> ((\<forall>g \<in> set (pg_requests (create_nodeset_placement_groups lk second node_list job)).
         \<exists>details. second g = HttpError details
           \<and> (\<forall>e \<in> set details. map_of e ''reason'' = Some ''alreadyExists'')) \<longrightarrow>
        (\<exists>d. pg_returned (create_nodeset_placement_groups lk second node_list job) = Inr d
             \<and> (\<forall>d'. pg_returned (create_nodeset_placement_groups lk first node_list job) = Inr d'
                     \<longrightarrow> d' = d)))"
proof (intro conjI)
  show "pg_requests (create_nodeset_placement_groups lk second node_list job)
          = pg_requests (create_nodeset_placement_groups lk first node_list job)"
    by (simp add: pg_requests_eq)
next
  have "pg_requests (create_nodeset_placement_groups lk second node_list job)
          = map (\<lambda>i. slurm_cluster_name lk @ ''-slurmgcp-managed-''
                     @ nodeset_name (node_nodeset lk (hd node_list)) @ ''-'' @ str_int job @ ''-''
                     @ str_nat i)
                [0..<(if uses_placement lk node_list
                      then length (chunked node_list PLACEMENT_MAX_CNT) else 0)]"
    by (simp add: pg_requests_eq placement_group_name_def)
  then show "\<exists>k. pg_requests (create_nodeset_placement_groups lk second node_list job)
          = map (\<lambda>i. slurm_cluster_name lk @ ''-slurmgcp-managed-''
                     @ nodeset_name (node_nodeset lk (hd node_list)) @ ''-'' @ str_int job @ ''-''
                     @ str_nat i) [0..<k]"
    by blast
next
  show "\<forall>g \<in> set (pg_requests (create_nodeset_placement_groups lk second node_list job)).
        \<forall>details. second g = HttpError details
          \<and> (\<forall>e \<in> set details. map_of e ''reason'' = Some ''alreadyExists'') \<longrightarrow>
          g \<in> set (pg_redundant (create_nodeset_placement_groups lk second node_list job))
          \<and> g \<notin> set (pg_failed (create_nodeset_placement_groups lk second node_list job))"
    unfolding pg_redundant_eq pg_failed_eq classified_def
    by (auto simp: list_all_iff)
next
  show "(\<forall>g \<in> set (pg_requests (create_nodeset_placement_groups lk second node_list job)).
         \<exists>details. second g = HttpError details
           \<and> (\<forall>e \<in> set details. map_of e ''reason'' = Some ''alreadyExists'')) \<longrightarrow>
        (\<exists>d. pg_returned (create_nodeset_placement_groups lk second node_list job) = Inr d
             \<and> (\<forall>d'. pg_returned (create_nodeset_placement_groups lk first node_list job) = Inr d'
                     \<longrightarrow> d' = d))"
  proof
    assume all: "\<forall>g \<in> set (pg_requests (create_nodeset_placement_groups lk second node_list job)).
         \<exists>details. second g = HttpError details
           \<and> (\<forall>e \<in> set details. map_of e ''reason'' = Some ''alreadyExists'')"
    have "pg_failed (create_nodeset_placement_groups lk second node_list job) = []"
      unfolding pg_failed_eq classified_def filter_empty_conv
      using all by (auto simp: list_all_iff)
    then have "pg_returned (create_nodeset_placement_groups lk second node_list job)
                 = Inr (if uses_placement lk node_list
                        then map (\<lambda>(g, ns). (Some g, ns)) (group_items lk node_list job)
                        else [(None, node_list)])"
      by (simp add: pg_returned_eq)
    moreover have "\<forall>d'. pg_returned (create_nodeset_placement_groups lk first node_list job) = Inr d'
            \<longrightarrow> d' = (if uses_placement lk node_list
                        then map (\<lambda>(g, ns). (Some g, ns)) (group_items lk node_list job)
                        else [(None, node_list)])"
      by (simp add: pg_returned_eq [of lk first] split: if_splits)
    ultimately show "\<exists>d. pg_returned (create_nodeset_placement_groups lk second node_list job) = Inr d
             \<and> (\<forall>d'. pg_returned (create_nodeset_placement_groups lk first node_list job) = Inr d'
                     \<longrightarrow> d' = d)"
      by blast
  qed
qed

theorem placement_groups_idempotent_witness:
  "pg_requests (create_nodeset_placement_groups example_lookup all_exist
      [''c-p-0'', ''c-p-1'', ''c-p-2''] 7) = [''c-slurmgcp-managed-p-7-0'']
   \<and> pg_requests (create_nodeset_placement_groups example_lookup all_submitted
      [''c-p-0'', ''c-p-1'', ''c-p-2''] 7) = [''c-slurmgcp-managed-p-7-0'']
   \<and> all_exist ''c-slurmgcp-managed-p-7-0'' = HttpError [[(''reason'', ''alreadyExists'')]]
   \<and> ''c-slurmgcp-managed-p-7-0'' \<in> set (pg_redundant (create_nodeset_placement_groups
        example_lookup all_exist [''c-p-0'', ''c-p-1'', ''c-p-2''] 7))
   \<and> ''c-slurmgcp-managed-p-7-0'' \<notin> set (pg_failed (create_nodeset_placement_groups
        example_lookup all_exist [''c-p-0'', ''c-p-1'', ''c-p-2''] 7))"
proof -
  let ?nl = "[''c-p-0'', ''c-p-1'', ''c-p-2'']"
  have reqs: "pg_requests (create_nodeset_placement_groups example_lookup all_exist ?nl 7)
                = [''c-slurmgcp-managed-p-7-0'']"
    by code_simp
  have ex: "all_exist ''c-slurmgcp-managed-p-7-0'' = HttpError [[(''reason'', ''alreadyExists'')]]"
    by (simp add: all_exist_def)
  have only: "\<forall>e \<in> set [[(''reason'', ''alreadyExists'')]]. map_of e ''reason'' = Some ''alreadyExists''"
    by simp
  note inst = placement_groups_idempotent [of example_lookup all_exist ?nl 7 all_submitted]
  from inst have same: "pg_requests (create_nodeset_placement_groups example_lookup all_exist ?nl 7)
     = pg_requests (create_nodeset_placement_groups example_lookup all_submitted ?nl 7)"
    by blast
  from inst have "\<forall>g \<in> set (pg_requests (create_nodeset_placement_groups example_lookup all_exist ?nl 7)).
        \<forall>details. all_exist g = HttpError details
          \<and> (\<forall>e \<in> set details. map_of e ''reason'' = Some ''alreadyExists'') \<longrightarrow>
          g \<in> set (pg_redundant (create_nodeset_placement_groups example_lookup all_exist ?nl 7))
          \<and> g \<notin> set (pg_failed (create_nodeset_placement_groups example_lookup all_exist ?nl 7))"
    by blast
  with reqs ex only
  have "''c-slurmgcp-managed-p-7-0'' \<in> set (pg_redundant (create_nodeset_placement_groups
           example_lookup all_exist ?nl 7))
        \<and> ''c-slurmgcp-managed-p-7-0'' \<notin> set (pg_failed (create_nodeset_placement_groups
           example_lookup all_exist ?nl 7))"
    by (metis list.set_intros(1))
  with reqs same ex show ?thesis by simp
qed

section \<open>Quarantine of failed inserts\<close>

lemma occurs_in_set: "occurs_in t s \<Longrightarrow> set t \<subseteq> set s"
  unfolding occurs_in_def by auto

lemma bucket_logged:
  assumes "\<forall>b \<in> set buckets. snd b \<noteq> []" and "(code, fops) \<in> set buckets"
  shows "LogError (str_nat (length (failed_nodes_of u fops)) @ '' instances failed to start: ''
           @ code @ '' ('' @ to_hostlist u (map fst (failed_nodes_of u fops))
           @ '') operationGroupId='' @ gid)
         \<in> set (failed_buckets_loop u lk rd gid after buckets)"
  using assms
proof (induction buckets)
  case Nil
  then show ?case by simp
next
  case (Cons b buckets)
  obtain c f where b: "b = (c, f)" by (cases b)
  with Cons.prems have "failed_nodes_of u f \<noteq> []" by (simp add: failed_nodes_of_nonempty)
  then obtain failed_node failed_op others
    where fn: "failed_nodes_of u f = (failed_node, failed_op) # others"
    by (cases "failed_nodes_of u f") auto
  show ?case
  proof (cases "(code, fops) = b")
    case True
    then have "c = code" "f = fops" using b by simp_all
    then show ?thesis unfolding b using fn by (simp add: Let_def)
  next
    case False
    with Cons have "LogError (str_nat (length (failed_nodes_of u fops)) @ '' instances failed to start: ''
           @ code @ '' ('' @ to_hostlist u (map fst (failed_nodes_of u fops))
           @ '') operationGroupId='' @ gid)
         \<in> set (failed_buckets_loop u lk rd gid after buckets)"
      by simp
    then show ?thesis unfolding b using fn by (simp add: Let_def)
  qed
qed

lemma by_error_inserts_nonempty: "\<forall>b \<in> set (by_error_inserts ops). snd b \<noteq> []"
  using by_error_inserts_mem by fastforce

lemma commands_run_reconcile_inserts:
  "commands_run (reconcile_inserts it u lk rd gid ops) =
     concat (map (bucket_commands u lk rd) (by_error_inserts ops))"
  unfolding reconcile_inserts_def Let_def
  by (simp add: commands_run_failed_buckets_loop [OF by_error_inserts_nonempty])

lemma occurs_in_middle: "occurs_in t (a @ t @ b)"
  unfolding occurs_in_def by blast

text \<open>
  C4 (amended). The failed inserts of a bulk operation are grouped by their error codes
  joined with a plus sign. The commands run are exactly the quarantine of every bucket
  whose joined code is not \<open>RESOURCE_ALREADY_EXISTS\<close>, each over all nodes of the bucket;
  a bucket with that code is logged and nothing is run for it, so operations that fail
  with it alone cause no command at all. The reason of a quarantine contains the code
  of every error of the bucket's first operation, and the joined code itself when this
  has no plus sign in it.
\<close>

theorem reconcile_quarantine:
  "(\<forall>(code, fops) \<in> set (by_error_inserts ops).
      fops \<noteq> [] \<and> fops = filter (\<lambda>op. op_error op \<noteq> None \<and> error_key op = code) ops)
   \<and> commands_run (reconcile_inserts it u lk resume_data group_id ops) =
       concat (map (\<lambda>(code, fops).
                      if code \<noteq> ''RESOURCE_ALREADY_EXISTS''
                      then commands_run (down_nodes_notify_jobs u lk
                             (map fst (failed_nodes_of u fops)) (bucket_reason u fops) resume_data)
                      else [])
                   (by_error_inserts ops))
   \<and> (\<forall>(code, fops) \<in> set (by_error_inserts ops).
        set (map fst (failed_nodes_of u fops)) = (\<lambda>op. trim_self_link u (targetLink op)) ` set fops
        \<and> snd (hd (failed_nodes_of u fops)) \<in> set fops
        \<and> (\<forall>e \<in> set (op_errors (snd (hd (failed_nodes_of u fops)))).
              occurs_in (err_code e) (bucket_reason u fops))
        \<and> (CHR ''+'' \<notin> set code \<longrightarrow> occurs_in code (bucket_reason u fops))
        \<and> (\<exists>line. LogError line \<in> set (reconcile_inserts it u lk resume_data group_id ops)
                    \<and> occurs_in code line))
   \<and> ((\<forall>op \<in> set ops. op_error op \<noteq> None \<longrightarrow> error_key op = ''RESOURCE_ALREADY_EXISTS'') \<longrightarrow>
        commands_run (reconcile_inserts it u lk resume_data group_id ops) = [])"
proof (intro conjI)
  show "\<forall>(code, fops) \<in> set (by_error_inserts ops).
      fops \<noteq> [] \<and> fops = filter (\<lambda>op. op_error op \<noteq> None \<and> error_key op = code) ops"
    using by_error_inserts_mem by blast
next
  have "bucket_commands u lk resume_data =
          (\<lambda>(code, fops).
              if code \<noteq> ''RESOURCE_ALREADY_EXISTS''
              then commands_run (down_nodes_notify_jobs u lk
                     (map fst (failed_nodes_of u fops)) (bucket_reason u fops) resume_data)
              else [])"
    by (rule ext) (simp add: bucket_commands_def case_prod_unfold)
  then show "commands_run (reconcile_inserts it u lk resume_data group_id ops) =
       concat (map (\<lambda>(code, fops).
                      if code \<noteq> ''RESOURCE_ALREADY_EXISTS''
                      then commands_run (down_nodes_notify_jobs u lk
                             (map fst (failed_nodes_of u fops)) (bucket_reason u fops) resume_data)
                      else [])
                   (by_error_inserts ops))"
    by (simp add: commands_run_reconcile_inserts)
next
  show "\<forall>(code, fops) \<in> set (by_error_inserts ops).
        set (map fst (failed_nodes_of u fops)) = (\<lambda>op. trim_self_link u (targetLink op)) ` set fops
        \<and> snd (hd (failed_nodes_of u fops)) \<in> set fops
        \<and> (\<forall>e \<in> set (op_errors (snd (hd (failed_nodes_of u fops)))).
              occurs_in (err_code e) (bucket_reason u fops))
        \<and> (CHR ''+'' \<notin> set code \<longrightarrow> occurs_in code (bucket_reason u fops))
        \<and> (\<exists>line. LogError line \<in> set (reconcile_inserts it u lk resume_data group_id ops)
                    \<and> occurs_in code line)"
  proof (intro ballI, clarify, intro conjI)
    fix code fops
    assume mem: "(code, fops) \<in> set (by_error_inserts ops)"
    show "set (map fst (failed_nodes_of u fops)) = (\<lambda>op. trim_self_link u (targetLink op)) ` set fops"
      by (rule failed_nodes_of_keys)
    show "snd (hd (failed_nodes_of u fops)) \<in> set fops"
      using by_error_inserts_mem [OF mem] by (intro representative_in_bucket) blast
    show "\<forall>e \<in> set (op_errors (snd (hd (failed_nodes_of u fops)))).
              occurs_in (err_code e) (bucket_reason u fops)"
      by (simp add: code_occurs_in_reason)
    show "CHR ''+'' \<notin> set code \<longrightarrow> occurs_in code (bucket_reason u fops)"
      using single_code_occurs_in_reason [OF mem] by blast
    have "LogError (str_nat (length (failed_nodes_of u fops)) @ '' instances failed to start: ''
           @ code @ '' ('' @ to_hostlist u (map fst (failed_nodes_of u fops))
           @ '') operationGroupId='' @ group_id)
         \<in> set (reconcile_inserts it u lk resume_data group_id ops)"
      unfolding reconcile_inserts_def Let_def
      using by_error_inserts_nonempty mem by (rule bucket_logged)
    moreover have "occurs_in code (str_nat (length (failed_nodes_of u fops)) @ '' instances failed to start: ''
           @ code @ '' ('' @ to_hostlist u (map fst (failed_nodes_of u fops))
           @ '') operationGroupId='' @ group_id)"
      using occurs_in_middle [of code "str_nat (length (failed_nodes_of u fops)) @ '' instances failed to start: ''"]
      by simp
    ultimately show "\<exists>line. LogError line \<in> set (reconcile_inserts it u lk resume_data group_id ops)
                    \<and> occurs_in code line"
      by blast
  qed
next
  show "(\<forall>op \<in> set ops. op_error op \<noteq> None \<longrightarrow> error_key op = ''RESOURCE_ALREADY_EXISTS'') \<longrightarrow>
        commands_run (reconcile_inserts it u lk resume_data group_id ops) = []"
  proof
    assume all: "\<forall>op \<in> set ops. op_error op \<noteq> None \<longrightarrow> error_key op = ''RESOURCE_ALREADY_EXISTS''"
    have "\<forall>b \<in> set (by_error_inserts ops). fst b = ''RESOURCE_ALREADY_EXISTS''"
    proof
      fix b assume "b \<in> set (by_error_inserts ops)"
      then have "(fst b, snd b) \<in> set (groupby_unsorted (filter (\<lambda>op. op_error op \<noteq> None) ops) error_key)"
        by (simp add: by_error_inserts_def separate_def)
      then have "fst b \<in> error_key ` set (filter (\<lambda>op. op_error op \<noteq> None) ops)"
        using groupby_unsorted_mem by metis
      with all show "fst b = ''RESOURCE_ALREADY_EXISTS''" by auto
    qed
    then have "\<forall>b \<in> set (by_error_inserts ops). bucket_commands u lk resume_data b = []"
      by (simp add: bucket_commands_def)
    then show "commands_run (reconcile_inserts it u lk resume_data group_id ops) = []"
      by (simp add: commands_run_reconcile_inserts)
  qed
qed

theorem reconcile_quarantine_witness:
  "by_error_inserts [example_already_exists, example_quota] =
     [(''RESOURCE_ALREADY_EXISTS'', [example_already_exists]), (''QUOTA_EXCEEDED'', [example_quota])]
   \<and> commands_run (reconcile_inserts sorted_list_of_set example_util example_lookup
        (Some example_jobs) ''g1'' [example_already_exists, example_quota]) =
      commands_run (down_nodes_notify_jobs example_util example_lookup [''c-a-2'']
        ''GCP Error: QUOTA_EXCEEDED: no quota'' (Some example_jobs))
   \<and> occurs_in ''QUOTA_EXCEEDED'' ''GCP Error: QUOTA_EXCEEDED: no quota''
   \<and> commands_run (reconcile_inserts sorted_list_of_set example_util example_lookup
        (Some example_jobs) ''g1'' [example_already_exists]) = []"
proof -
  have buckets: "by_error_inserts [example_already_exists, example_quota] =
     [(''RESOURCE_ALREADY_EXISTS'', [example_already_exists]), (''QUOTA_EXCEEDED'', [example_quota])]"
    by code_simp
  have keys: "map fst (failed_nodes_of example_util [example_quota]) = [''c-a-2'']"
    by code_simp
  have reason: "bucket_reason example_util [example_quota] = ''GCP Error: QUOTA_EXCEEDED: no quota''"
    by code_simp
  note two = reconcile_quarantine [of "[example_already_exists, example_quota]" sorted_list_of_set
      example_util example_lookup "Some example_jobs" "''g1''"]
  have cmds: "commands_run (reconcile_inserts sorted_list_of_set example_util example_lookup
        (Some example_jobs) ''g1'' [example_already_exists, example_quota]) =
      commands_run (down_nodes_notify_jobs example_util example_lookup [''c-a-2'']
        ''GCP Error: QUOTA_EXCEEDED: no quota'' (Some example_jobs))"
    using two [THEN conjunct2, THEN conjunct1] by (simp add: buckets keys reason)
  have "CHR ''+'' \<notin> set ''QUOTA_EXCEEDED'' \<longrightarrow>
          occurs_in ''QUOTA_EXCEEDED'' (bucket_reason example_util [example_quota])"
    using two [THEN conjunct2, THEN conjunct2, THEN conjunct1] by (simp add: buckets)
  then have occ: "occurs_in ''QUOTA_EXCEEDED'' ''GCP Error: QUOTA_EXCEEDED: no quota''"
    by (simp add: reason)
  have only: "\<forall>op \<in> set [example_already_exists].
                op_error op \<noteq> None \<longrightarrow> error_key op = ''RESOURCE_ALREADY_EXISTS''"
    by (simp add: example_already_exists_def error_key_def op_errors_def)
  have none: "commands_run (reconcile_inserts sorted_list_of_set example_util example_lookup
        (Some example_jobs) ''g1'' [example_already_exists]) = []"
    using reconcile_quarantine [of "[example_already_exists]" sorted_list_of_set
      example_util example_lookup "Some example_jobs" "''g1''", THEN conjunct2, THEN conjunct2,
      THEN conjunct2] only by blast
  from buckets cmds occ none show ?thesis by blast
qed

text \<open>
  C4 as stated fails for an operation with two errors: its nodes are quarantined, and
  the reason names both codes but does not contain the joined code of the bucket.
\<close>

theorem joined_code_not_in_reason:
  "by_error_inserts [example_two_errors] =
     [(''QUOTA_EXCEEDED+INTERNAL_ERROR'', [example_two_errors])]
   \<and> commands_run (reconcile_inserts sorted_list_of_set example_util example_lookup None ''g1''
        [example_two_errors]) =
      [mark_down_command example_lookup ''c-a-0''
         (shlex_quote ''GCP Error: QUOTA_EXCEEDED: no message; INTERNAL_ERROR: no message'')]
   \<and> \<not> occurs_in ''QUOTA_EXCEEDED+INTERNAL_ERROR''
         ''GCP Error: QUOTA_EXCEEDED: no message; INTERNAL_ERROR: no message''"
proof -
  have a: "by_error_inserts [example_two_errors] =
     [(''QUOTA_EXCEEDED+INTERNAL_ERROR'', [example_two_errors])]"
    by code_simp
  have b: "commands_run (reconcile_inserts sorted_list_of_set example_util example_lookup None ''g1''
        [example_two_errors]) =
      [mark_down_command example_lookup ''c-a-0''
         (shlex_quote ''GCP Error: QUOTA_EXCEEDED: no message; INTERNAL_ERROR: no message'')]"
    by code_simp
  have c: "\<not> occurs_in ''QUOTA_EXCEEDED+INTERNAL_ERROR''
         ''GCP Error: QUOTA_EXCEEDED: no message; INTERNAL_ERROR: no message''"
  proof
    assume "occurs_in ''QUOTA_EXCEEDED+INTERNAL_ERROR''
         ''GCP Error: QUOTA_EXCEEDED: no message; INTERNAL_ERROR: no message''"
    then have "set ''QUOTA_EXCEEDED+INTERNAL_ERROR''
                \<subseteq> set ''GCP Error: QUOTA_EXCEEDED: no message; INTERNAL_ERROR: no message''"
      by (rule occurs_in_set)
    then show False by simp
  qed
  from a b c show ?thesis by blast
qed

section \<open>Nodes lost by the grouping\<close>

text \<open>
  C1 fails on the code: two jobless nodes of two nodesets that get no placement group
  are both filed under the key \<open>None\<close> by \<open>create_placement_groups\<close>, the second list
  replaces the first, and the node of the first nodeset is in no chunk.
\<close>

theorem group_nodes_bulk_drops_nodeset:
  "group_nodes_bulk sorted_list_of_set example_lookup example_lookup all_submitted
     [''c-a-0'', ''c-b-0''] None =
   Inr [(''c-b:0'', \<lparr>nodes = [''c-b-0''], prefix = ''c-b'', chunk_idx = 0, chunk_job_id = None,
                     chunk_partition = None, placement_group = None\<rparr>)]"
  by code_simp

end
